theory Spec2Isabelle
  imports Complex_Main "HOL-Library.Log_Nat"
begin

section \<open>Data model (types.ts)\<close>

text \<open>
  JavaScript numbers that hold counts, day intervals and millisecond timestamps are
  modelled as \<open>int\<close> (they are exact in a double below \<open>2 ^ 53\<close>); an optional field
  is an \<open>option\<close>. Only the quiz score, which is the result of a division, is modelled
  with the rounding of double arithmetic (section "Numbers").
  Strings are byte lists; text outside ASCII is held as its UTF-8 bytes.
\<close>

record WordPair =
  id_word :: string
  english :: string
  chinese :: string
  category :: "string option"
  lastReviewed :: "int option"
  reviewInterval :: "int option"
  proficiency :: "int option"

text \<open>
  A \<open>WordLibrary\<close> is an object whose keys are category names. It is modelled as the
  list of its (key, value) properties in enumeration order, which is the order of
  \<open>for ... in\<close> and of \<open>Object.values\<close>.
\<close>

type_synonym WordLibrary = "(string \<times> WordPair list) list"

datatype AppMode = SETUP | QUIZ | RESULT | SPEAKING | DIALOGUE

record QuizResult =
  wordId :: string
  isCorrect :: bool
  userAnswer :: string
  correctAnswer :: string
  timestamp :: int

record WrongWord =
  english_wrong :: string
  chinese_wrong :: string

section \<open>Numbers\<close>

text \<open>
  The score is computed as \<open>Math.round((correctCount / results.length) * 100)\<close>.
  Both operands of the division are array counts. The quotient and the product are
  each rounded to the nearest double (53 significant bits, ties to even); all values
  that occur lie in the normal range of the format, so no overflow or underflow is
  modelled. A division of zero by zero is \<open>NaN\<close>.
\<close>

datatype number = Num rat | Infinity | NaN

definition pow2 :: "int \<Rightarrow> rat" where
  "pow2 k = (if 0 \<le> k then 2 ^ nat k else 1 / 2 ^ nat (- k))"

definition exponent :: "rat \<Rightarrow> int" where
  \<comment> \<open>for \<open>q > 0\<close>: the \<open>e\<close> with \<open>2 ^ e \<le> q < 2 ^ (e + 1)\<close>\<close>
  "exponent q =
     (let (a, b) = quotient_of q; k = bitlen a - bitlen b
      in if pow2 k \<le> q then k else k - 1)"

definition round_half_even :: "rat \<Rightarrow> int" where
  "round_half_even q =
     (let f = \<lfloor>q\<rfloor>; d = q - of_int f
      in if d < 1 / 2 then f
         else if 1 / 2 < d then f + 1
         else if even f then f else f + 1)"

definition binary64 :: "rat \<Rightarrow> rat" where
  \<comment> \<open>the double nearest to \<open>q\<close>, for \<open>q \<ge> 0\<close> in the normal range\<close>
  "binary64 q =
     (if q \<le> 0 then 0
      else let u = pow2 (exponent q - 52)
           in of_int (round_half_even (q / u)) * u)"

definition divide_counts :: "nat \<Rightarrow> nat \<Rightarrow> number" where
  \<comment> \<open>\<open>a / b\<close> on two counts\<close>
  "divide_counts a b =
     (if b = 0 then (if a = 0 then NaN else Infinity)
      else Num (binary64 (of_nat a / of_nat b)))"

fun times_100 :: "number \<Rightarrow> number" where
  "times_100 (Num q) = Num (binary64 (q * 100))"
| "times_100 Infinity = Infinity"
| "times_100 NaN = NaN"

fun Math_round :: "number \<Rightarrow> number" where
  \<comment> \<open>nearest integer, ties towards \<open>+\<infinity>\<close>\<close>
  "Math_round (Num q) = Num (of_int \<lfloor>q + 1 / 2\<rfloor>)"
| "Math_round Infinity = Infinity"
| "Math_round NaN = NaN"

record TestRecord =
  id_record :: string
  date :: int
  score :: number
  total :: nat
  wrongWords :: "WrongWord list"

section \<open>Review scheduler (App.tsx, handleQuizComplete)\<close>

fun findIndex :: "('a \<Rightarrow> bool) \<Rightarrow> 'a list \<Rightarrow> nat option" where
  \<comment> \<open>\<open>Array.prototype.findIndex\<close>; \<open>None\<close> stands for \<open>-1\<close>\<close>
  "findIndex P [] = None"
| "findIndex P (x # xs) =
     (if P x then Some 0 else map_option Suc (findIndex P xs))"

definition or_zero :: "int option \<Rightarrow> int" where
  \<comment> \<open>\<open>v || 0\<close> on an optional number\<close>
  "or_zero v = (case v of None \<Rightarrow> 0 | Some n \<Rightarrow> n)"

definition newInterval :: "WordPair \<Rightarrow> QuizResult \<Rightarrow> int" where
  "newInterval word res =
     (let currentInterval = or_zero (reviewInterval word)
      in if isCorrect res
         then (if currentInterval = 0 then 1 else currentInterval * 2)
         else 0)"

definition updatedWord :: "WordPair \<Rightarrow> QuizResult \<Rightarrow> int \<Rightarrow> WordPair" where
  \<comment> \<open>the object literal assigned to \<open>newLibrary[cat][idx]\<close>\<close>
  "updatedWord word res now =
     word\<lparr> lastReviewed := Some now,
           reviewInterval := Some (newInterval word res),
           proficiency :=
             Some (if isCorrect res
                   then min (or_zero (proficiency word) + 1) 5
                   else max (or_zero (proficiency word) - 1) 0) \<rparr>"

definition updateCategory :: "QuizResult \<Rightarrow> int \<Rightarrow> WordPair list \<Rightarrow> WordPair list" where
  \<comment> \<open>the body of the \<open>for ... in\<close> loop, on the array of one category\<close>
  "updateCategory res now ws =
     (case findIndex (\<lambda>w. id_word w = wordId res) ws of
        None \<Rightarrow> ws
      | Some idx \<Rightarrow> ws[idx := updatedWord (ws ! idx) res now])"

definition updateWord :: "QuizResult \<Rightarrow> int \<Rightarrow> WordLibrary \<Rightarrow> WordLibrary" where
  \<comment> \<open>the \<open>for ... in\<close> loop: every category is visited, there is no \<open>break\<close>\<close>
  "updateWord res now lib = map (\<lambda>(cat, ws). (cat, updateCategory res now ws)) lib"

definition or_Empty :: "string \<Rightarrow> string" where
  \<comment> \<open>\<open>res.userAnswer || 'Empty'\<close>\<close>
  "or_Empty s = (if s = [] then ''Empty'' else s)"

record Tally =
  newLibrary :: WordLibrary
  correctCount :: nat
  wrongWordsAcc :: "WrongWord list"

definition forEach_step :: "int \<Rightarrow> Tally \<Rightarrow> QuizResult \<Rightarrow> Tally" where
  \<comment> \<open>the callback of \<open>results.forEach\<close>\<close>
  "forEach_step now t res =
     \<lparr> newLibrary = updateWord res now (newLibrary t),
       correctCount = (if isCorrect res then correctCount t + 1 else correctCount t),
       wrongWordsAcc =
         (if isCorrect res then wrongWordsAcc t
          else wrongWordsAcc t @
                 [\<lparr> english_wrong = correctAnswer res,
                     chinese_wrong = or_Empty (userAnswer res) \<rparr>]) \<rparr>"

definition applyResults :: "WordLibrary \<Rightarrow> QuizResult list \<Rightarrow> int \<Rightarrow> Tally" where
  \<comment> \<open>\<open>results.forEach\<close> inside the updater given to \<open>setLibrary\<close>\<close>
  "applyResults prevLibrary results now =
     foldl (forEach_step now)
       \<lparr> newLibrary = prevLibrary, correctCount = 0, wrongWordsAcc = [] \<rparr> results"

fun digits :: "nat \<Rightarrow> string" where
  "digits n =
     (if n < 10 then [''0123456789'' ! n]
      else digits (n div 10) @ [''0123456789'' ! (n mod 10)])"

definition toString :: "int \<Rightarrow> string" where
  \<comment> \<open>\<open>Number.prototype.toString\<close> on an integer\<close>
  "toString n = (if n < 0 then CHR ''-'' # digits (nat (- n)) else digits (nat n))"

record AppState =
  mode :: AppMode
  library :: WordLibrary
  testHistory :: "TestRecord list"
  lastResults :: "QuizResult list"

text \<open>
  \<open>handleQuizComplete\<close> reads the clock twice: \<open>now\<close> stamps the words and the record's
  date, \<open>idNow\<close> gives the record's id. The handler only hands its state changes to
  React. \<open>setLastResults\<close> has already scheduled an update of the component when
  \<open>setLibrary\<close> is called, so the function passed to \<open>setLibrary\<close> is queued and runs at
  the next render, after the handler has returned. The record is built in the handler,
  before that function has run: \<open>correctCount\<close> still has its initial value 0 when the
  score is computed. The record's \<open>wrongWords\<close> field is the array object that the
  queued function pushes to, so the stored record holds the wrong words once that
  function has run. The model returns the state after that render. The source writes
  the updated words into the arrays of the previous library, which the copy
  \<open>newLibrary\<close> shares; the model returns the library that results.
\<close>

definition makeRecord ::
  "QuizResult list \<Rightarrow> nat \<Rightarrow> WrongWord list \<Rightarrow> int \<Rightarrow> int \<Rightarrow> TestRecord" where
  \<comment> \<open>the object literal \<open>record\<close>, for the value of \<open>correctCount\<close> that the handler reads\<close>
  "makeRecord results count wrong now idNow =
     \<lparr> id_record = toString idNow,
       date = now,
       score = Math_round (times_100 (divide_counts count (length results))),
       total = length results,
       wrongWords = wrong \<rparr>"

definition handleQuizComplete :: "AppState \<Rightarrow> QuizResult list \<Rightarrow> int \<Rightarrow> int \<Rightarrow> AppState" where
  "handleQuizComplete st results now idNow =
     (let t = applyResults (library st) results now
      in st\<lparr> lastResults := results,
             library := newLibrary t,
             testHistory := testHistory st @ [makeRecord results 0 (wrongWordsAcc t) now idNow],
             mode := RESULT \<rparr>)"

section \<open>Due words (components/SetupScreen.tsx, getDueWords)\<close>

definition getDueWords :: "WordLibrary \<Rightarrow> int \<Rightarrow> WordPair list" where
  \<comment> \<open>\<open>!w.lastReviewed\<close> holds for an absent field and for the number \<open>0\<close>\<close>
  "getDueWords lib now =
     (let allWords = concat (map snd lib)
      in filter
           (\<lambda>w. case lastReviewed w of
                  None \<Rightarrow> True
                | Some t \<Rightarrow>
                    if t = 0 then True
                    else (let intervalMs = or_zero (reviewInterval w) * 24 * 60 * 60 * 1000
                          in t + intervalMs \<le> now))
           allWords)"

text \<open>
  The due predicate in the words of the specification: a word is due if it has never
  been reviewed, or if \<open>lastReviewedAt + reviewIntervalDays * 86400000 \<le> now\<close>.
\<close>

definition due_by_spec :: "int \<Rightarrow> WordPair \<Rightarrow> bool" where
  "due_by_spec now w =
     (case lastReviewed w of
        None \<Rightarrow> True
      | Some t \<Rightarrow> t + or_zero (reviewInterval w) * 86400000 \<le> now)"

section \<open>Account and library store (services/storageService.ts)\<close>

text \<open>
  \<open>localStorage\<close> is modelled by the parsed content of its items. The service uses
  three families of keys, \<open>USERS_KEY\<close>, \<open>CURRENT_USER_KEY\<close> and \<open>getUserKey userId\<close>,
  which never coincide (lemma \<open>storage_keys_apart\<close>); each family holds values of one
  shape, so the store is a record with one field per family. An item is missing, or
  holds text that \<open>JSON.parse\<close> rejects, or holds a value. Writing is taken to succeed.
  User names and passwords are ASCII strings: \<open>toLowerCase\<close> and \<open>trim\<close> are modelled
  on ASCII letters and ASCII white space.
\<close>

record User =
  id_user :: string
  username :: string
  password :: "string option"
  createdAt :: int
  isAdmin :: bool

record UserData =
  data_library :: WordLibrary
  data_history :: "TestRecord list"

datatype 'a item = Missing | Unparsable | Parsed 'a

record LocalStorage =
  users_item :: "User list item"
  current_user_item :: "User item"
  data_items :: "string \<Rightarrow> UserData item"

datatype error = Error string

text \<open>The three failures of the store, under the names the specification gives them.\<close>

definition DuplicateUsername :: error where
  "DuplicateUsername = Error ''Username already exists''"

definition UserNotFound :: error where
  "UserNotFound = Error ''User not found''"

definition InvalidCredentials :: error where
  "InvalidCredentials = Error ''Invalid password''"

definition USERS_KEY :: string where
  "USERS_KEY = ''sdb_users''"

definition CURRENT_USER_KEY :: string where
  "CURRENT_USER_KEY = ''sdb_current_user''"

definition ADMIN_IDENTIFIERS :: "string list" where
  "ADMIN_IDENTIFIERS = [''910272860@qq.com'', ''13585556661'']"

definition getUserKey :: "string \<Rightarrow> string" where
  "getUserKey userId = ''sdb_data_'' @ userId"

definition word :: "string \<Rightarrow> string \<Rightarrow> string \<Rightarrow> string \<Rightarrow> WordPair" where
  \<comment> \<open>an object literal \<open>{ id, english, chinese, category }\<close>\<close>
  "word i e c k =
     \<lparr> id_word = i, english = e, chinese = c, category = Some k,
       lastReviewed = None, reviewInterval = None, proficiency = None \<rparr>"

definition DEFAULT_LIBRARY :: WordLibrary where
  "DEFAULT_LIBRARY =
     [ (''Food'',
       [ word ''def-1'' ''Apple'' [CHR 0xE8, CHR 0x8B, CHR 0xB9, CHR 0xE6, CHR 0x9E, CHR 0x9C] ''Food'',
         word ''def-2'' ''Banana'' [CHR 0xE9, CHR 0xA6, CHR 0x99, CHR 0xE8, CHR 0x95, CHR 0x89] ''Food'',
         word ''def-3'' ''Bread'' [CHR 0xE9, CHR 0x9D, CHR 0xA2, CHR 0xE5, CHR 0x8C, CHR 0x85] ''Food'',
         word ''def-4'' ''Milk'' [CHR 0xE7, CHR 0x89, CHR 0x9B, CHR 0xE5, CHR 0xA5, CHR 0xB6] ''Food'',
         word ''def-5'' ''Coffee'' [CHR 0xE5, CHR 0x92, CHR 0x96, CHR 0xE5, CHR 0x95, CHR 0xA1] ''Food'' ]),
       (''Animals'',
       [ word ''def-6'' ''Cat'' [CHR 0xE7, CHR 0x8C, CHR 0xAB] ''Animals'',
         word ''def-7'' ''Dog'' [CHR 0xE7, CHR 0x8B, CHR 0x97] ''Animals'',
         word ''def-8'' ''Elephant'' [CHR 0xE5, CHR 0xA4, CHR 0xA7, CHR 0xE8, CHR 0xB1, CHR 0xA1] ''Animals'',
         word ''def-9'' ''Tiger'' [CHR 0xE8, CHR 0x80, CHR 0x81, CHR 0xE8, CHR 0x99, CHR 0x8E] ''Animals'' ]),
       (''School'',
       [ word ''def-10'' ''Book'' [CHR 0xE4, CHR 0xB9, CHR 0xA6] ''School'',
         word ''def-11'' ''Teacher'' [CHR 0xE8, CHR 0x80, CHR 0x81, CHR 0xE5, CHR 0xB8, CHR 0x88] ''School'',
         word ''def-12'' ''Student'' [CHR 0xE5, CHR 0xAD, CHR 0xA6, CHR 0xE7, CHR 0x94, CHR 0x9F] ''School'',
         word ''def-13'' ''Pencil'' [CHR 0xE9, CHR 0x93, CHR 0x85, CHR 0xE7, CHR 0xAC, CHR 0x94] ''School'' ]),
       (''Travel'',
       [ word ''def-14'' ''Airport'' [CHR 0xE6, CHR 0x9C, CHR 0xBA, CHR 0xE5, CHR 0x9C, CHR 0xBA] ''Travel'',
         word ''def-15'' ''Ticket'' [CHR 0xE7, CHR 0xA5, CHR 0xA8] ''Travel'',
         word ''def-16'' ''Hotel'' [CHR 0xE9, CHR 0x85, CHR 0x92, CHR 0xE5, CHR 0xBA, CHR 0x97] ''Travel'' ]),
       (''Uncategorized'', []) ]"

definition toLowerCase_char :: "char \<Rightarrow> char" where
  "toLowerCase_char c =
     (let n = (of_char c :: nat) in if 65 \<le> n \<and> n \<le> 90 then char_of (n + 32) else c)"

definition toLowerCase :: "string \<Rightarrow> string" where
  "toLowerCase s = map toLowerCase_char s"

definition isWhiteSpace :: "char \<Rightarrow> bool" where
  \<comment> \<open>tab, line feed, vertical tab, form feed, carriage return, space\<close>
  "isWhiteSpace c = ((of_char c :: nat) \<in> {9, 10, 11, 12, 13, 32})"

definition trim :: "string \<Rightarrow> string" where
  "trim s = rev (dropWhile isWhiteSpace (rev (dropWhile isWhiteSpace s)))"

definition getUsers :: "LocalStorage \<Rightarrow> User list" where
  "getUsers ls = (case users_item ls of Parsed users \<Rightarrow> users | _ \<Rightarrow> [])"

definition saveUserData :: "string \<Rightarrow> UserData \<Rightarrow> LocalStorage \<Rightarrow> LocalStorage" where
  "saveUserData userId data ls =
     ls\<lparr> data_items := (data_items ls)(getUserKey userId := Parsed data) \<rparr>"

definition loadUserData :: "LocalStorage \<Rightarrow> string \<Rightarrow> UserData option" where
  "loadUserData ls userId =
     (case data_items ls (getUserKey userId) of Parsed data \<Rightarrow> Some data | _ \<Rightarrow> None)"

text \<open>
  \<open>register\<close> reads the clock twice, for the id and for \<open>createdAt\<close>. Each operation
  that writes returns the store it leaves; a \<open>throw\<close> is the result \<open>Inl\<close>.
\<close>

definition register ::
  "LocalStorage \<Rightarrow> string \<Rightarrow> string option \<Rightarrow> int \<Rightarrow> int \<Rightarrow> (error + User) \<times> LocalStorage" where
  "register ls name pass idNow createdNow =
     (let users = getUsers ls;
          cleanUsername = trim name
      in if list_ex (\<lambda>u. toLowerCase (username u) = toLowerCase cleanUsername) users
         then (Inl (Error ''Username already exists''), ls)
         else
           (let newUser =
                  \<lparr> id_user = toString idNow,
                    username = cleanUsername,
                    password = pass,
                    createdAt = createdNow,
                    isAdmin = (cleanUsername \<in> set ADMIN_IDENTIFIERS) \<rparr>;
                ls1 = ls\<lparr> users_item := Parsed (users @ [newUser]) \<rparr>;
                ls2 = saveUserData (id_user newUser)
                        \<lparr> data_library = DEFAULT_LIBRARY, data_history = [] \<rparr> ls1
            in (Inr newUser, ls2)))"

definition login :: "LocalStorage \<Rightarrow> string \<Rightarrow> string option \<Rightarrow> error + User" where
  \<comment> \<open>\<open>user.password\<close> is truthy when it is present and not the empty string\<close>
  "login ls name pass =
     (case find (\<lambda>u. toLowerCase (username u) = toLowerCase (trim name)) (getUsers ls) of
        None \<Rightarrow> Inl (Error ''User not found'')
      | Some user \<Rightarrow>
          if password user \<noteq> None \<and> password user \<noteq> Some [] \<and> password user \<noteq> pass
          then Inl (Error ''Invalid password'')
          else Inr user)"

definition deleteUser :: "LocalStorage \<Rightarrow> string \<Rightarrow> LocalStorage" where
  "deleteUser ls targetUserId =
     (let users = filter (\<lambda>u. id_user u \<noteq> targetUserId) (getUsers ls)
      in ls\<lparr> users_item := Parsed users,
             data_items := (data_items ls)(getUserKey targetUserId := Missing) \<rparr>)"

definition resetUserPassword :: "LocalStorage \<Rightarrow> string \<Rightarrow> string \<Rightarrow> LocalStorage" where
  "resetUserPassword ls targetUserId newPass =
     (let users = getUsers ls
      in case findIndex (\<lambda>u. id_user u = targetUserId) users of
           None \<Rightarrow> ls
         | Some idx \<Rightarrow>
             ls\<lparr> users_item := Parsed (users[idx := (users ! idx)\<lparr> password := Some newPass \<rparr>]) \<rparr>)"

text \<open>
  The user that \<open>register\<close> creates, and the invariant that every stored name is
  trimmed, which every operation of the service keeps.
\<close>

definition newUser_of :: "string \<Rightarrow> string option \<Rightarrow> int \<Rightarrow> int \<Rightarrow> User" where
  \<comment> \<open>the user that \<open>register\<close> creates\<close>
  "newUser_of name pass idNow createdNow =
     \<lparr> id_user = toString idNow, username = trim name, password = pass,
       createdAt = createdNow, isAdmin = (trim name \<in> set ADMIN_IDENTIFIERS) \<rparr>"

definition names_trimmed :: "LocalStorage \<Rightarrow> bool" where
  "names_trimmed ls = list_all (\<lambda>u. trim (username u) = username u) (getUsers ls)"

text \<open>
  Two invariants of the library: no word is stamped with the time 0, and no two words
  have the same id. \<open>handleQuizComplete\<close> keeps both, the first for a clock that does not
  read 0, and the default library has both.
\<close>

definition no_zero_stamp :: "WordLibrary \<Rightarrow> bool" where
  "no_zero_stamp lib = list_all (\<lambda>w. lastReviewed w \<noteq> Some 0) (concat (map snd lib))"

definition ids_unique :: "WordLibrary \<Rightarrow> bool" where
  "ids_unique lib = distinct (map id_word (concat (map snd lib)))"

section \<open>Example inputs\<close>

definition scenario_word :: WordPair where
  "scenario_word =
     \<lparr> id_word = ''w1'', english = ''Apple'', chinese = ''pingguo'', category = Some ''Food'',
       lastReviewed = None, reviewInterval = Some 0, proficiency = Some 0 \<rparr>"

definition scenario_state :: AppState where
  "scenario_state =
     \<lparr> mode = QUIZ, library = [(''Uncategorized'', []), (''Food'', [scenario_word])],
       testHistory = [], lastResults = [] \<rparr>"

definition answer :: "bool \<Rightarrow> QuizResult" where
  "answer ok =
     \<lparr> wordId = ''w1'', isCorrect = ok, userAnswer = (if ok then ''Apple'' else ''Appel''),
       correctAnswer = ''Apple'', timestamp = 1000 \<rparr>"


definition epoch_word :: WordPair where
  "epoch_word = (word ''w0'' ''Apple'' ''pingguo'' ''Food'')\<lparr> lastReviewed := Some 0, reviewInterval := Some 1 \<rparr>"

definition reviewed_word :: WordPair where
  \<comment> \<open>reviewed at time 5 with an interval of one day: due from 86400005 on\<close>
  "reviewed_word = (word ''w2'' ''Cat'' ''mao'' ''Animals'')\<lparr> lastReviewed := Some 5, reviewInterval := Some 1 \<rparr>"

definition review_library :: WordLibrary where
  "review_library = [(''Food'', [word ''w1'' ''Apple'' ''pingguo'' ''Food'']), (''Animals'', [reviewed_word])]"

definition quiz_2_of_3 :: "QuizResult list" where
  "quiz_2_of_3 = [answer True, answer False, answer True]"

definition other_word :: WordPair where
  "other_word = word ''w2'' ''Bread'' ''mianbao'' ''Food''"

definition repeated_library :: WordLibrary where
  \<comment> \<open>the id \<open>w1\<close> twice in one category and once more in another\<close>
  "repeated_library =
     [(''Food'', [other_word, scenario_word, scenario_word]), (''Fruit'', [scenario_word])]"

definition repeated_state :: AppState where
  "repeated_state =
     \<lparr> mode = QUIZ, library = repeated_library, testHistory = [], lastResults = [] \<rparr>"

definition empty_store :: LocalStorage where
  "empty_store = \<lparr> users_item = Missing, current_user_item = Missing, data_items = (\<lambda>key. Missing) \<rparr>"

definition bob :: User where
  "bob = \<lparr> id_user = ''1000'', username = ''bob'', password = Some ''secret'',
           createdAt = 1000, isAdmin = False \<rparr>"

definition store_bob :: LocalStorage where
  \<comment> \<open>the store after \<open>register("bob", "secret")\<close> at time 1000\<close>
  "store_bob = snd (register empty_store ''bob'' (Some ''secret'') 1000 1000)"

definition amy :: User where
  "amy = \<lparr> id_user = ''2000'', username = ''amy'', password = Some [],
           createdAt = 2000, isAdmin = False \<rparr>"

definition store_two :: LocalStorage where
  \<comment> \<open>the store after \<open>register("bob", "secret")\<close> and then \<open>register("amy", "")\<close>\<close>
  "store_two = snd (register store_bob ''amy'' (Some []) 2000 2000)"

section \<open>Properties of the review scheduler\<close>

lemma findIndex_None: "findIndex P xs = None \<longleftrightarrow> (\<forall>x\<in>set xs. \<not> P x)"
  by (induction xs) auto

lemma findIndex_Some:
  "findIndex P xs = Some i \<longleftrightarrow> i < length xs \<and> P (xs ! i) \<and> (\<forall>j<i. \<not> P (xs ! j))"
proof (induction xs arbitrary: i)
  case Nil
  then show ?case by simp
next
  case (Cons x xs)
  show ?case
  proof (cases "P x")
    case True
    then show ?thesis by (cases i) auto
  next
    case False
    show ?thesis
    proof (cases i)
      case 0
      with False show ?thesis by auto
    next
      case (Suc m)
      have "(\<forall>j<Suc m. \<not> P ((x # xs) ! j)) \<longleftrightarrow> (\<forall>j<m. \<not> P (xs ! j))"
        using False by (auto simp: less_Suc_eq_0_disj)
      with Suc False Cons.IH [of m] show ?thesis by auto
    qed
  qed
qed

lemma updateCategory_first:
  assumes "i < length ws" and "id_word (ws ! i) = wordId res"
    and "\<forall>j<i. id_word (ws ! j) \<noteq> wordId res"
  shows "updateCategory res now ws = ws[i := updatedWord (ws ! i) res now]"
proof -
  have "findIndex (\<lambda>w. id_word w = wordId res) ws = Some i"
    using assms by (simp add: findIndex_Some)
  then show ?thesis by (simp add: updateCategory_def)
qed

lemma updateCategory_no_match:
  assumes "\<forall>w\<in>set ws. id_word w \<noteq> wordId res"
  shows "updateCategory res now ws = ws"
proof -
  have "findIndex (\<lambda>w. id_word w = wordId res) ws = None"
    using assms by (simp add: findIndex_None)
  then show ?thesis by (simp add: updateCategory_def)
qed

lemma length_updateCategory [simp]: "length (updateCategory res now ws) = length ws"
  by (simp add: updateCategory_def split: option.splits)

lemma length_updateWord [simp]: "length (updateWord res now lib) = length lib"
  by (simp add: updateWord_def)

lemma updateWord_nth:
  "k < length lib \<Longrightarrow> updateWord res now lib ! k = (fst (lib ! k), updateCategory res now (snd (lib ! k)))"
  by (simp add: updateWord_def case_prod_beta)

lemma newLibrary_applyResults_snoc:
  "newLibrary (applyResults lib (rs @ [res]) now) = updateWord res now (newLibrary (applyResults lib rs now))"
  by (simp add: applyResults_def forEach_step_def)

lemma library_handleQuizComplete:
  "library (handleQuizComplete st rs now idNow) = newLibrary (applyResults (library st) rs now)"
  by (simp add: handleQuizComplete_def Let_def)

lemma library_after_result:
  "library (handleQuizComplete st (rs @ [res]) now idNow) =
     updateWord res now (library (handleQuizComplete st rs now idNow'))"
  by (simp add: library_handleQuizComplete newLibrary_applyResults_snoc)









lemma concat_nth_subset:
  "k < length xss \<Longrightarrow> set (xss ! k) \<subseteq> set (concat xss)"
  by (induction xss arbitrary: k) (auto simp: nth_Cons split: nat.splits)

lemma distinct_map_concat_apart:
  assumes "distinct (map f (concat xss))" and "k < length xss" and "k' < length xss" and "k \<noteq> k'"
    and "x \<in> set (xss ! k)" and "y \<in> set (xss ! k')"
  shows "f x \<noteq> f y"
  using assms
proof (induction xss arbitrary: k k')
  case Nil
  then show ?case by simp
next
  case (Cons xs xss)
  from Cons.prems(1) have d: "distinct (map f (concat xss))"
    and apart: "f ` set xs \<inter> f ` set (concat xss) = {}"
    by auto
  show ?case
  proof (cases k)
    case 0
    with Cons.prems obtain m where m: "k' = Suc m" "m < length xss"
      by (cases k') auto
    with Cons.prems 0 have "x \<in> set xs" "y \<in> set (concat xss)"
      using concat_nth_subset [of m xss] by auto
    with apart show ?thesis by blast
  next
    case (Suc n)
    show ?thesis
    proof (cases k')
      case 0
      with Cons.prems Suc have "y \<in> set xs" "x \<in> set (concat xss)"
        using concat_nth_subset [of n xss] by auto
      with apart show ?thesis by force
    next
      case (Suc m)
      with Cons.prems \<open>k = Suc n\<close> d show ?thesis
        using Cons.IH [of n m] by auto
    qed
  qed
qed

lemma distinct_map_concat_within:
  assumes "distinct (map f (concat xss))" and "k < length xss"
  shows "distinct (map f (xss ! k))"
  using assms
  by (induction xss arbitrary: k) (auto simp: nth_Cons split: nat.splits)

lemma updateWord_no_match:
  assumes "wordId res \<notin> id_word ` set (concat (map snd lib))"
  shows "updateWord res now lib = lib"
proof -
  have "\<And>cat ws. (cat, ws) \<in> set lib \<Longrightarrow> updateCategory res now ws = ws"
  proof -
    fix cat ws assume "(cat, ws) \<in> set lib"
    then have "\<forall>w\<in>set ws. id_word w \<noteq> wordId res"
      using assms by force
    then show "updateCategory res now ws = ws"
      by (rule updateCategory_no_match)
  qed
  then have "map (\<lambda>(cat, ws). (cat, updateCategory res now ws)) lib = map (\<lambda>p. p) lib"
    by (intro map_cong) auto
  then show ?thesis by (simp add: updateWord_def)
qed

lemma updateWord_unique_match:
  assumes d: "distinct (map id_word (concat (map snd lib)))"
    and k: "k < length lib" "lib ! k = (cat, ws)"
    and i: "i < length ws" "id_word (ws ! i) = wordId res"
  shows "updateWord res now lib = lib[k := (cat, ws[i := updatedWord (ws ! i) res now])]"
proof (rule nth_equalityI)
  show "length (updateWord res now lib) = length (lib[k := (cat, ws[i := updatedWord (ws ! i) res now])])"
    by simp
next
  fix n assume "n < length (updateWord res now lib)"
  then have n: "n < length lib" by simp
  show "updateWord res now lib ! n = lib[k := (cat, ws[i := updatedWord (ws ! i) res now])] ! n"
  proof (cases "n = k")
    case True
    have dw: "distinct (map id_word ws)"
      using distinct_map_concat_within [OF d, of k] k by simp
    have "\<forall>j<i. id_word (ws ! j) \<noteq> wordId res"
    proof (intro allI impI)
      fix j assume "j < i"
      with i(1) have "map id_word ws ! j \<noteq> map id_word ws ! i"
        using nth_eq_iff_index_eq [OF dw, of j i] by simp
      with \<open>j < i\<close> i show "id_word (ws ! j) \<noteq> wordId res" by simp
    qed
    then have "updateCategory res now ws = ws[i := updatedWord (ws ! i) res now]"
      using i by (intro updateCategory_first) auto
    with True k show ?thesis by (simp add: updateWord_nth)
  next
    case False
    have "\<forall>w\<in>set (snd (lib ! n)). id_word w \<noteq> wordId res"
    proof
      fix w assume "w \<in> set (snd (lib ! n))"
      moreover have "ws ! i \<in> set (snd (lib ! k))" using k i by simp
      ultimately have "id_word w \<noteq> id_word (ws ! i)"
        using distinct_map_concat_apart [of id_word "map snd lib" n k w "ws ! i"] d n k False
        by simp
      with i show "id_word w \<noteq> wordId res" by simp
    qed
    then have "updateCategory res now (snd (lib ! n)) = snd (lib ! n)"
      by (rule updateCategory_no_match)
    with False n show ?thesis by (simp add: updateWord_nth)
  qed
qed

lemma updatedWord_fields:
  "updatedWord w res now =
     w\<lparr> lastReviewed := Some now,
        reviewInterval :=
          Some (if isCorrect res
                then (if or_zero (reviewInterval w) = 0 then 1 else 2 * or_zero (reviewInterval w))
                else 0),
        proficiency :=
          Some (if isCorrect res then min (or_zero (proficiency w) + 1) 5
                else max (or_zero (proficiency w) - 1) 0) \<rparr>"
  by (simp add: updatedWord_def newInterval_def Let_def)

lemma map_id_word_updateCategory: "map id_word (updateCategory res now ws) = map id_word ws"
proof (cases "findIndex (\<lambda>w. id_word w = wordId res) ws")
  case None
  then show ?thesis by (simp add: updateCategory_def)
next
  case (Some i)
  then have "i < length ws" by (simp add: findIndex_Some)
  then have "map id_word (ws[i := updatedWord (ws ! i) res now]) = map id_word ws"
    by (simp add: map_update updatedWord_def list_update_same_conv)
  with Some show ?thesis by (simp add: updateCategory_def)
qed

lemma ids_updateWord:
  "map id_word (concat (map snd (updateWord res now lib))) = map id_word (concat (map snd lib))"
  by (induction lib) (auto simp: updateWord_def map_id_word_updateCategory)

lemma ids_handleQuizComplete:
  "map id_word (concat (map snd (library (handleQuizComplete st rs now idNow))))
     = map id_word (concat (map snd (library st)))"
proof (induction rs rule: rev_induct)
  case Nil
  show ?case by (simp add: library_handleQuizComplete applyResults_def)
next
  case (snoc r rs)
  then show ?case
    by (simp add: library_after_result [of st rs r now idNow idNow] ids_updateWord)
qed

lemma ids_unique_handleQuizComplete:
  "ids_unique (library st) \<Longrightarrow> ids_unique (library (handleQuizComplete st rs now idNow))"
  by (simp add: ids_unique_def ids_handleQuizComplete)

lemma ids_unique_DEFAULT_LIBRARY: "ids_unique DEFAULT_LIBRARY"
  by (simp add: ids_unique_def DEFAULT_LIBRARY_def word_def)

text \<open>
  Claim C5. Let \<open>lib\<close> be the library left by the results before \<open>res\<close>, and \<open>lib'\<close> the
  library after \<open>res\<close>. The updated copy of a word keeps its id and text and has the new
  review time, interval and proficiency. If no word of any category has the id of
  \<open>res\<close>, then \<open>lib'\<close> is \<open>lib\<close>; the function has no failing branch. The categories stay in
  place. A category with no word of that id is unchanged. In a category that has such
  words, the first of them is replaced by its updated copy and every other word of
  the category stays, a later word with the same id included. If the ids of the library
  are unique, which \<open>handleQuizComplete\<close> keeps and the default library has, then \<open>lib'\<close> is
  \<open>lib\<close> with the one matching entry replaced and nothing else changed.
\<close>

theorem result_replaces_one_entry:
  assumes "library (handleQuizComplete st rs now idNow) = lib"
  shows
    "let lib' = library (handleQuizComplete st (rs @ [res]) now idNow);
         copy = (\<lambda>w. w\<lparr> lastReviewed := Some now,
                   reviewInterval :=
                     Some (if isCorrect res
                           then (if or_zero (reviewInterval w) = 0 then 1
                                 else 2 * or_zero (reviewInterval w))
                           else 0),
                   proficiency :=
                     Some (if isCorrect res then min (or_zero (proficiency w) + 1) 5
                           else max (or_zero (proficiency w) - 1) 0) \<rparr>)
     in (wordId res \<notin> id_word ` set (concat (map snd lib)) \<longrightarrow> lib' = lib) \<and>
        length lib' = length lib \<and>
        (\<forall>k cat ws. k < length lib \<and> lib ! k = (cat, ws) \<longrightarrow>
           ((\<forall>w\<in>set ws. id_word w \<noteq> wordId res) \<longrightarrow> lib' ! k = (cat, ws)) \<and>
           (\<forall>i. i < length ws \<and> id_word (ws ! i) = wordId res \<and>
                (\<forall>j<i. id_word (ws ! j) \<noteq> wordId res) \<longrightarrow>
                lib' ! k = (cat, ws[i := copy (ws ! i)]))) \<and>
        (distinct (map id_word (concat (map snd lib))) \<longrightarrow>
           (\<forall>k cat ws i.
              k < length lib \<and> lib ! k = (cat, ws) \<and> i < length ws \<and>
              id_word (ws ! i) = wordId res \<longrightarrow>
              lib' = lib[k := (cat, ws[i := copy (ws ! i)])]))"
proof -
  have step: "library (handleQuizComplete st (rs @ [res]) now idNow) = updateWord res now lib"
    using assms library_after_result [of st rs res now idNow idNow] by simp
  have none: "wordId res \<notin> id_word ` set (concat (map snd lib)) \<longrightarrow> updateWord res now lib = lib"
    by (auto intro: updateWord_no_match)
  have cats: "\<forall>k cat ws. k < length lib \<and> lib ! k = (cat, ws) \<longrightarrow>
           ((\<forall>w\<in>set ws. id_word w \<noteq> wordId res) \<longrightarrow> updateWord res now lib ! k = (cat, ws)) \<and>
           (\<forall>i. i < length ws \<and> id_word (ws ! i) = wordId res \<and>
                (\<forall>j<i. id_word (ws ! j) \<noteq> wordId res) \<longrightarrow>
                updateWord res now lib ! k = (cat, ws[i := updatedWord (ws ! i) res now]))"
    by (auto simp: updateWord_nth updateCategory_no_match updateCategory_first)
  have uniq: "distinct (map id_word (concat (map snd lib))) \<longrightarrow>
           (\<forall>k cat ws i.
              k < length lib \<and> lib ! k = (cat, ws) \<and> i < length ws \<and>
              id_word (ws ! i) = wordId res \<longrightarrow>
              updateWord res now lib = lib[k := (cat, ws[i := updatedWord (ws ! i) res now])])"
    by (auto intro: updateWord_unique_match)
  from none cats uniq show ?thesis
    unfolding Let_def step updatedWord_fields [symmetric] by simp
qed

text \<open>
  C5 at a library that holds the id \<open>w1\<close> twice in one category and once in another,
  and at the library of the scenario, with an unknown id and with the id \<open>w1\<close>.
\<close>

theorem result_replaces_one_entry_witness:
  "library (handleQuizComplete repeated_state ([] @ [answer True]) 1000 1001) ! 0
     = (''Food'', [other_word,
          scenario_word\<lparr> lastReviewed := Some 1000, reviewInterval := Some 1, proficiency := Some 1 \<rparr>,
          scenario_word]) \<and>
   library (handleQuizComplete repeated_state ([] @ [answer True]) 1000 1001) ! 1
     = (''Fruit'',
        [scenario_word\<lparr> lastReviewed := Some 1000, reviewInterval := Some 1, proficiency := Some 1 \<rparr>]) \<and>
   library (handleQuizComplete scenario_state ([] @ [(answer True)\<lparr>wordId := ''w2''\<rparr>]) 1000 1001)
     = [(''Uncategorized'', []), (''Food'', [scenario_word])] \<and>
   library (handleQuizComplete scenario_state ([] @ [answer False]) 1000 1001)
     = [(''Uncategorized'', []),
        (''Food'',
         [scenario_word\<lparr> lastReviewed := Some 1000, reviewInterval := Some 0, proficiency := Some 0 \<rparr>])]"
proof -
  let ?rep = "[(''Food'', [other_word, scenario_word, scenario_word]), (''Fruit'', [scenario_word])]"
  let ?lib = "[(''Uncategorized'', []), (''Food'', [scenario_word])]"
  have rep: "library (handleQuizComplete repeated_state [] 1000 1001) = ?rep"
    by (simp add: handleQuizComplete_def applyResults_def repeated_state_def repeated_library_def)
  have lib: "library (handleQuizComplete scenario_state [] 1000 1001) = ?lib"
    by (simp add: handleQuizComplete_def applyResults_def scenario_state_def)
  have ids: "id_word scenario_word = ''w1''" "id_word other_word = ''w2''" "wordId (answer ok) = ''w1''"
    "reviewInterval scenario_word = Some 0" "proficiency scenario_word = Some 0" "isCorrect (answer ok) = ok"
    for ok
    by (simp_all add: scenario_word_def other_word_def word_def answer_def)
  note r = result_replaces_one_entry [OF rep, of "answer True", unfolded Let_def]
  from r have "\<forall>k cat ws. k < length ?rep \<and> ?rep ! k = (cat, ws) \<longrightarrow>
      (\<forall>i. i < length ws \<and> id_word (ws ! i) = wordId (answer True) \<and>
           (\<forall>j<i. id_word (ws ! j) \<noteq> wordId (answer True)) \<longrightarrow>
           library (handleQuizComplete repeated_state ([] @ [answer True]) 1000 1001) ! k
             = (cat, ws[i := (ws ! i)\<lparr> lastReviewed := Some 1000,
                   reviewInterval :=
                     Some (if isCorrect (answer True)
                           then (if or_zero (reviewInterval (ws ! i)) = 0 then 1
                                 else 2 * or_zero (reviewInterval (ws ! i)))
                           else 0),
                   proficiency :=
                     Some (if isCorrect (answer True) then min (or_zero (proficiency (ws ! i)) + 1) 5
                           else max (or_zero (proficiency (ws ! i)) - 1) 0) \<rparr>]))"
    by simp
  note first = this [rule_format]
  have 1: "library (handleQuizComplete repeated_state ([] @ [answer True]) 1000 1001) ! 0
     = (''Food'', [other_word,
          scenario_word\<lparr> lastReviewed := Some 1000, reviewInterval := Some 1, proficiency := Some 1 \<rparr>,
          scenario_word])"
    using first [of 0 "''Food''" "[other_word, scenario_word, scenario_word]" 1]
    by (simp add: ids or_zero_def less_Suc_eq)
  have 2: "library (handleQuizComplete repeated_state ([] @ [answer True]) 1000 1001) ! 1
     = (''Fruit'',
        [scenario_word\<lparr> lastReviewed := Some 1000, reviewInterval := Some 1, proficiency := Some 1 \<rparr>])"
    using first [of 1 "''Fruit''" "[scenario_word]" 0]
    by (simp add: ids or_zero_def)
  note n = result_replaces_one_entry [OF lib, of "(answer True)\<lparr>wordId := ''w2''\<rparr>", unfolded Let_def]
  have 3: "library (handleQuizComplete scenario_state ([] @ [(answer True)\<lparr>wordId := ''w2''\<rparr>]) 1000 1001) = ?lib"
    using n by (simp add: ids)
  note u = result_replaces_one_entry [OF lib, of "answer False", unfolded Let_def]
  from u have "distinct (map id_word (concat (map snd ?lib))) \<longrightarrow>
      (\<forall>k cat ws i.
          k < length ?lib \<and> ?lib ! k = (cat, ws) \<and> i < length ws \<and>
          id_word (ws ! i) = wordId (answer False) \<longrightarrow>
          library (handleQuizComplete scenario_state ([] @ [answer False]) 1000 1001)
            = ?lib[k := (cat, ws[i := (ws ! i)\<lparr> lastReviewed := Some 1000,
                   reviewInterval :=
                     Some (if isCorrect (answer False)
                           then (if or_zero (reviewInterval (ws ! i)) = 0 then 1
                                 else 2 * or_zero (reviewInterval (ws ! i)))
                           else 0),
                   proficiency :=
                     Some (if isCorrect (answer False) then min (or_zero (proficiency (ws ! i)) + 1) 5
                           else max (or_zero (proficiency (ws ! i)) - 1) 0) \<rparr>])])"
    by simp
  note one = this [rule_format]
  have 4: "library (handleQuizComplete scenario_state ([] @ [answer False]) 1000 1001)
     = [(''Uncategorized'', []),
        (''Food'',
         [scenario_word\<lparr> lastReviewed := Some 1000, reviewInterval := Some 0, proficiency := Some 0 \<rparr>])]"
    using one [of 1 "''Food''" "[scenario_word]" 0]
    by (simp add: ids or_zero_def)
  from 1 2 3 4 show ?thesis by simp
qed

section \<open>Properties of the due words\<close>

lemma getDueWords_filter:
  "getDueWords lib now =
     filter (\<lambda>w. lastReviewed w = Some 0 \<or> due_by_spec now w) (concat (map snd lib))"
  unfolding getDueWords_def Let_def due_by_spec_def
  by (rule filter_cong) (auto split: option.splits)

text \<open>
  No stamp is 0 in the default library, and \<open>handleQuizComplete\<close>, the one place that
  writes \<open>lastReviewed\<close>, writes the reading of the clock.
\<close>

lemma no_zero_stamp_DEFAULT_LIBRARY: "no_zero_stamp DEFAULT_LIBRARY"
  by (simp add: no_zero_stamp_def DEFAULT_LIBRARY_def word_def)

lemma no_zero_stamp_updateCategory:
  assumes "now \<noteq> 0" and "list_all (\<lambda>w. lastReviewed w \<noteq> Some 0) ws"
  shows "list_all (\<lambda>w. lastReviewed w \<noteq> Some 0) (updateCategory res now ws)"
proof (cases "findIndex (\<lambda>w. id_word w = wordId res) ws")
  case None
  with assms(2) show ?thesis by (simp add: updateCategory_def)
next
  case (Some i)
  have "lastReviewed (updatedWord (ws ! i) res now) \<noteq> Some 0"
    using assms(1) by (simp add: updatedWord_def)
  moreover have "set (ws[i := updatedWord (ws ! i) res now])
      \<subseteq> insert (updatedWord (ws ! i) res now) (set ws)"
    by (rule set_update_subset_insert)
  ultimately have "list_all (\<lambda>w. lastReviewed w \<noteq> Some 0) (ws[i := updatedWord (ws ! i) res now])"
    using assms(2) by (auto simp: list_all_iff)
  with Some show ?thesis by (simp add: updateCategory_def)
qed

lemma no_zero_stamp_updateWord:
  assumes "now \<noteq> 0" and "no_zero_stamp lib"
  shows "no_zero_stamp (updateWord res now lib)"
  using assms(2)
proof (induction lib)
  case Nil
  then show ?case by (simp add: updateWord_def)
next
  case (Cons p lib)
  obtain cat ws where p: "p = (cat, ws)" by (cases p)
  from Cons.prems have "list_all (\<lambda>w. lastReviewed w \<noteq> Some 0) ws" and "no_zero_stamp lib"
    by (simp_all add: no_zero_stamp_def p)
  then have "list_all (\<lambda>w. lastReviewed w \<noteq> Some 0) (updateCategory res now ws)"
    and "no_zero_stamp (updateWord res now lib)"
    using assms(1) Cons.IH by (simp_all add: no_zero_stamp_updateCategory)
  then show ?case
    by (simp add: no_zero_stamp_def updateWord_def p)
qed

lemma no_zero_stamp_handleQuizComplete:
  assumes "now \<noteq> 0" and "no_zero_stamp (library st)"
  shows "no_zero_stamp (library (handleQuizComplete st rs now idNow))"
proof (induction rs rule: rev_induct)
  case Nil
  from assms(2) show ?case by (simp add: library_handleQuizComplete applyResults_def)
next
  case (snoc r rs)
  then show ?case
    using assms(1)
    by (simp add: library_after_result [of st rs r now idNow idNow] no_zero_stamp_updateWord)
qed

text \<open>
  Claim C3. In a library where no word is stamped with the time 0, \<open>getDueWords\<close>
  returns, in library order, exactly the words that are due in the sense of the
  specification. It includes every word whose review time is absent. A word with a
  review time \<open>t\<close> is left out when \<open>now < t + interval * 86400000\<close> and is included when
  \<open>now\<close> equals that sum.
\<close>

theorem getDueWords_due:
  assumes "no_zero_stamp lib"
  shows "getDueWords lib now = filter (due_by_spec now) (concat (map snd lib)) \<and>
   (\<forall>w\<in>set (concat (map snd lib)).
      (lastReviewed w = None \<longrightarrow> w \<in> set (getDueWords lib now)) \<and>
      (\<forall>t. lastReviewed w = Some t \<longrightarrow>
         (now < t + or_zero (reviewInterval w) * 86400000 \<longrightarrow> w \<notin> set (getDueWords lib now)) \<and>
         (now = t + or_zero (reviewInterval w) * 86400000 \<longrightarrow> w \<in> set (getDueWords lib now))))"
proof -
  have nz: "\<forall>w\<in>set (concat (map snd lib)). lastReviewed w \<noteq> Some 0"
    using assms by (simp add: no_zero_stamp_def list_all_iff)
  then have eq: "getDueWords lib now = filter (due_by_spec now) (concat (map snd lib))"
    unfolding getDueWords_filter by (intro filter_cong) auto
  show ?thesis
  proof (intro conjI ballI allI impI)
    show "getDueWords lib now = filter (due_by_spec now) (concat (map snd lib))"
      by (rule eq)
  next
    fix w assume "w \<in> set (concat (map snd lib))" and "lastReviewed w = None"
    then show "w \<in> set (getDueWords lib now)"
      unfolding eq by (simp add: due_by_spec_def)
  next
    fix w :: WordPair and t assume "lastReviewed w = Some t"
      and "now < t + or_zero (reviewInterval w) * 86400000"
    then show "w \<notin> set (getDueWords lib now)"
      unfolding eq by (simp add: due_by_spec_def)
  next
    fix w t assume "w \<in> set (concat (map snd lib))" and "lastReviewed w = Some t"
      and "now = t + or_zero (reviewInterval w) * 86400000"
    then show "w \<in> set (getDueWords lib now)"
      unfolding eq by (simp add: due_by_spec_def)
  qed
qed

text \<open>
  A word reviewed at time 5 with an interval of one day is left out at 86400004 and
  included at 86400005; a word that was never reviewed is included at both times.
\<close>

theorem getDueWords_due_witness:
  "no_zero_stamp review_library \<and>
   getDueWords review_library 86400004 = [word ''w1'' ''Apple'' ''pingguo'' ''Food''] \<and>
   getDueWords review_library 86400005 = [word ''w1'' ''Apple'' ''pingguo'' ''Food'', reviewed_word] \<and>
   reviewed_word \<in> set (concat (map snd review_library)) \<and>
   reviewed_word \<notin> set (getDueWords review_library 86400004) \<and>
   reviewed_word \<in> set (getDueWords review_library 86400005)"
proof -
  have nz: "no_zero_stamp review_library"
    by (simp add: no_zero_stamp_def review_library_def reviewed_word_def word_def)
  have m: "reviewed_word \<in> set (concat (map snd review_library))"
    by (simp add: review_library_def)
  have t: "lastReviewed reviewed_word = Some 5"
    by (simp add: reviewed_word_def)
  have lt: "(86400004::int) < 5 + or_zero (reviewInterval reviewed_word) * 86400000"
    by (simp add: reviewed_word_def or_zero_def)
  have eq: "(86400005::int) = 5 + or_zero (reviewInterval reviewed_word) * 86400000"
    by (simp add: reviewed_word_def or_zero_def)
  have 1: "reviewed_word \<notin> set (getDueWords review_library 86400004)"
    using getDueWords_due [OF nz, of 86400004] m t lt by blast
  have 2: "reviewed_word \<in> set (getDueWords review_library 86400005)"
    using getDueWords_due [OF nz, of 86400005] m t eq by blast
  have d: "due_by_spec now (word ''w1'' ''Apple'' ''pingguo'' ''Food'')" for now
    by (simp add: due_by_spec_def word_def)
  have "\<not> due_by_spec 86400004 reviewed_word" "due_by_spec 86400005 reviewed_word"
    by (simp_all add: due_by_spec_def reviewed_word_def word_def or_zero_def)
  with d getDueWords_due [OF nz, of 86400004] getDueWords_due [OF nz, of 86400005]
  have 3: "getDueWords review_library 86400004 = [word ''w1'' ''Apple'' ''pingguo'' ''Food'']"
    and 4: "getDueWords review_library 86400005 = [word ''w1'' ''Apple'' ''pingguo'' ''Food'', reviewed_word]"
    by (simp_all add: review_library_def)
  from nz m 1 2 3 4 show ?thesis by simp
qed

text \<open>
  The hypothesis of C3 is needed: the test \<open>!w.lastReviewed\<close> is also true of the number
  0, so a word stamped with the time 0 is returned at time 1 although it is not due.
\<close>

lemma getDueWords_zero_stamp:
  "lastReviewed epoch_word = Some 0 \<and> reviewInterval epoch_word = Some 1 \<and>
   \<not> due_by_spec 1 epoch_word \<and>
   getDueWords [(''Food'', [epoch_word])] 1 = [epoch_word]"
  by (simp add: epoch_word_def word_def getDueWords_def due_by_spec_def or_zero_def)

section \<open>Properties of the test record\<close>

lemma applyResults_counts:
  "correctCount (foldl (forEach_step now) t rs) = correctCount t + length (filter isCorrect rs)"
  by (induction rs arbitrary: t) (simp_all add: forEach_step_def)

lemma applyResults_wrongWords:
  "wrongWordsAcc (foldl (forEach_step now) t rs) =
     wrongWordsAcc t @
       map (\<lambda>res. \<lparr> english_wrong = correctAnswer res, chinese_wrong = or_Empty (userAnswer res) \<rparr>)
         (filter (\<lambda>res. \<not> isCorrect res) rs)"
  by (induction rs arbitrary: t) (simp_all add: forEach_step_def)

lemma record_of_quiz:
  "testHistory (handleQuizComplete st rs now idNow) = testHistory st @
     [\<lparr> id_record = toString idNow, date = now,
        score = Math_round (times_100 (divide_counts 0 (length rs))),
        total = length rs,
        wrongWords =
          map (\<lambda>res. \<lparr> english_wrong = correctAnswer res, chinese_wrong = or_Empty (userAnswer res) \<rparr>)
            (filter (\<lambda>res. \<not> isCorrect res) rs) \<rparr>]"
  by (simp add: handleQuizComplete_def Let_def makeRecord_def applyResults_def
      applyResults_wrongWords)

lemma score_of_empty_quiz:
  "map score (testHistory (handleQuizComplete st [] now idNow)) = map score (testHistory st) @ [NaN]"
  by (simp add: record_of_quiz divide_counts_def)

lemma total_of_quiz:
  "map total (testHistory (handleQuizComplete st rs now idNow)) = map total (testHistory st) @ [length rs]"
  by (simp add: record_of_quiz)

lemma score_from_zero:
  assumes "0 < n"
  shows "Math_round (times_100 (divide_counts 0 n)) = Num 0"
proof -
  have "\<lfloor>(1 / 2 :: rat)\<rfloor> = 0"
    by (rule floor_unique) simp_all
  with assms show ?thesis
    by (simp add: divide_counts_def binary64_def)
qed

lemma score_of_nonempty_quiz:
  assumes "rs \<noteq> []"
  shows "map score (testHistory (handleQuizComplete st rs now idNow))
           = map score (testHistory st) @ [Num 0]"
  using assms by (simp add: record_of_quiz score_from_zero)

lemma binary64_examples:
  "binary64 (1 / 2) = 1 / 2"
  "binary64 (1 / 10) = 3602879701896397 / 36028797018963968"
  "binary64 (23 / 40) = 2589569785738035 / 4503599627370496"
  by code_simp+

text \<open>
  Claim C4. For a quiz of three results of which two are correct the record holds the
  score 0, while \<open>100 * 2 / 3\<close> rounds to 67: the score is computed from \<open>correctCount\<close>
  before the queued function has counted the correct results. The total is the number
  of results.
\<close>

theorem score_of_2_correct_of_3:
  "length quiz_2_of_3 = 3 \<and> length (filter isCorrect quiz_2_of_3) = 2 \<and>
   map score (testHistory (handleQuizComplete scenario_state quiz_2_of_3 1000 1001)) = [Num 0] \<and>
   map total (testHistory (handleQuizComplete scenario_state quiz_2_of_3 1000 1001)) = [3] \<and>
   \<lfloor>(100 * 2 / 3 :: rat) + 1 / 2\<rfloor> = 67"
proof -
  have "quiz_2_of_3 \<noteq> []"
    by (simp add: quiz_2_of_3_def)
  then have "map score (testHistory (handleQuizComplete scenario_state quiz_2_of_3 1000 1001)) = [Num 0]"
    by (simp add: score_of_nonempty_quiz scenario_state_def)
  moreover have "map total (testHistory (handleQuizComplete scenario_state quiz_2_of_3 1000 1001)) = [3]"
    by (simp add: total_of_quiz quiz_2_of_3_def scenario_state_def)
  moreover have "length quiz_2_of_3 = 3 \<and> length (filter isCorrect quiz_2_of_3) = 2"
    by (simp add: quiz_2_of_3_def answer_def)
  moreover have "\<lfloor>(100 * 2 / 3 :: rat) + 1 / 2\<rfloor> = 67"
    by (rule floor_unique) simp_all
  ultimately show ?thesis by blast
qed

section \<open>Properties of the account and library store\<close>

lemma storage_keys_apart:
  "getUserKey a \<noteq> USERS_KEY \<and> getUserKey a \<noteq> CURRENT_USER_KEY \<and>
   USERS_KEY \<noteq> CURRENT_USER_KEY \<and> (getUserKey a = getUserKey b \<longleftrightarrow> a = b)"
  by (simp add: getUserKey_def USERS_KEY_def CURRENT_USER_KEY_def)

lemma isWhiteSpace_toLowerCase_char [simp]:
  "isWhiteSpace (toLowerCase_char c) = isWhiteSpace c"
  by (auto simp: isWhiteSpace_def toLowerCase_char_def Let_def)

lemma dropWhile_same_length:
  assumes "length (dropWhile P xs) = length xs"
  shows "dropWhile P xs = xs"
proof -
  have "length (takeWhile P xs) + length (dropWhile P xs) = length xs"
    by (metis length_append takeWhile_dropWhile_id)
  with assms have "takeWhile P xs = []" by simp
  then show ?thesis by (metis append_Nil takeWhile_dropWhile_id)
qed

lemma trim_fixed_iff:
  "trim s = s \<longleftrightarrow> s = [] \<or> (\<not> isWhiteSpace (hd s) \<and> \<not> isWhiteSpace (last s))"
proof
  assume fixed: "trim s = s"
  show "s = [] \<or> (\<not> isWhiteSpace (hd s) \<and> \<not> isWhiteSpace (last s))"
  proof (cases "s = []")
    case True
    then show ?thesis by simp
  next
    case False
    let ?t = "dropWhile isWhiteSpace s"
    have "length (trim s) \<le> length ?t"
      unfolding trim_def using length_dropWhile_le [of isWhiteSpace "rev ?t"] by simp
    moreover have "length ?t \<le> length s"
      by (rule length_dropWhile_le)
    ultimately have "length ?t = length s"
      using fixed by simp
    then have front: "?t = s" by (rule dropWhile_same_length)
    with fixed have "rev (dropWhile isWhiteSpace (rev s)) = s"
      by (simp add: trim_def)
    then have "dropWhile isWhiteSpace (rev s) = rev s"
      by (metis rev_rev_ident)
    with False have "\<not> isWhiteSpace (hd (rev s))"
      by (simp add: dropWhile_eq_self_iff)
    with False front show ?thesis
      by (simp add: dropWhile_eq_self_iff hd_rev)
  qed
next
  assume "s = [] \<or> (\<not> isWhiteSpace (hd s) \<and> \<not> isWhiteSpace (last s))"
  then show "trim s = s"
  proof
    assume "s = []"
    then show ?thesis by (simp add: trim_def)
  next
    assume a: "\<not> isWhiteSpace (hd s) \<and> \<not> isWhiteSpace (last s)"
    then have "dropWhile isWhiteSpace s = s"
      by (simp add: dropWhile_eq_self_iff)
    moreover have "dropWhile isWhiteSpace (rev s) = rev s"
      using a by (cases "s = []") (simp_all add: dropWhile_eq_self_iff hd_rev)
    ultimately show ?thesis by (simp add: trim_def)
  qed
qed

lemma trim_of_lower_eq:
  assumes "trim s = s" and "toLowerCase s = toLowerCase t"
  shows "trim t = t"
proof (cases "s = []")
  case True
  with assms(2) show ?thesis by (simp add: toLowerCase_def trim_def)
next
  case False
  have len: "length s = length t"
    using assms(2) unfolding toLowerCase_def by (rule map_eq_imp_length_eq)
  with False have t: "t \<noteq> []" by auto
  have "hd (toLowerCase s) = hd (toLowerCase t)" "last (toLowerCase s) = last (toLowerCase t)"
    using assms(2) by simp_all
  then have "toLowerCase_char (hd s) = toLowerCase_char (hd t)"
    "toLowerCase_char (last s) = toLowerCase_char (last t)"
    using False t by (simp_all add: toLowerCase_def hd_map last_map)
  then have "isWhiteSpace (hd s) = isWhiteSpace (hd t)" "isWhiteSpace (last s) = isWhiteSpace (last t)"
    by (metis isWhiteSpace_toLowerCase_char)+
  with assms(1) False t show ?thesis
    by (simp add: trim_fixed_iff)
qed

lemma toString_1000: "toString 1000 = ''1000''"
  by code_simp

lemma trim_bob: "trim ''bob'' = ''bob''"
  by (simp add: trim_fixed_iff isWhiteSpace_def)

lemma register_bob:
  "register empty_store ''bob'' (Some ''secret'') 1000 1000 =
     (Inr bob, \<lparr> users_item = Parsed [bob], current_user_item = Missing,
                 data_items = (\<lambda>key. Missing)(getUserKey ''1000'' :=
                    Parsed \<lparr> data_library = DEFAULT_LIBRARY, data_history = [] \<rparr>) \<rparr>)"
  by (simp add: register_def getUsers_def empty_store_def trim_bob toString_1000 bob_def
      ADMIN_IDENTIFIERS_def saveUserData_def Let_def)

lemma getUsers_store_bob: "getUsers store_bob = [bob]"
  by (simp add: store_bob_def register_bob getUsers_def)

lemma toLowerCase_trim: "toLowerCase (trim s) = trim (toLowerCase s)"
proof -
  have comp: "isWhiteSpace \<circ> toLowerCase_char = isWhiteSpace"
    by (rule ext) simp
  show ?thesis
    by (simp add: toLowerCase_def trim_def rev_map dropWhile_map comp)
qed

lemma register_duplicate:
  assumes "u \<in> set (getUsers ls)"
    and "toLowerCase (username u) = toLowerCase (trim name)"
  shows "register ls name pass idNow createdNow = (Inl DuplicateUsername, ls)"
proof -
  have "list_ex (\<lambda>u. toLowerCase (username u) = toLowerCase (trim name)) (getUsers ls)"
    using assms by (auto simp: list_ex_iff)
  then show ?thesis
    by (simp add: register_def DuplicateUsername_def)
qed

lemma register_new:
  assumes "\<not> (\<exists>u\<in>set (getUsers ls). toLowerCase (username u) = toLowerCase (trim name))"
  shows "register ls name pass idNow createdNow =
     (Inr (newUser_of name pass idNow createdNow),
      ls\<lparr> users_item := Parsed (getUsers ls @ [newUser_of name pass idNow createdNow]),
          data_items := (data_items ls)(getUserKey (toString idNow) :=
             Parsed \<lparr> data_library = DEFAULT_LIBRARY, data_history = [] \<rparr>) \<rparr>)"
proof -
  have "\<not> list_ex (\<lambda>u. toLowerCase (username u) = toLowerCase (trim name)) (getUsers ls)"
    using assms by (simp add: list_ex_iff)
  then show ?thesis
    by (simp add: register_def newUser_of_def saveUserData_def Let_def)
qed

lemma register_twice:
  assumes "toLowerCase n1 = toLowerCase n2"
  shows "fst (register (snd (register ls n1 p1 t1 t1')) n2 p2 t2 t2') = Inl DuplicateUsername"
proof -
  have same: "toLowerCase (trim n1) = toLowerCase (trim n2)"
    using assms by (simp add: toLowerCase_trim)
  show ?thesis
  proof (cases "\<exists>u\<in>set (getUsers ls). toLowerCase (username u) = toLowerCase (trim n1)")
    case True
    then obtain u where u: "u \<in> set (getUsers ls)"
      "toLowerCase (username u) = toLowerCase (trim n1)" by blast
    then have "register ls n1 p1 t1 t1' = (Inl DuplicateUsername, ls)"
      by (rule register_duplicate)
    moreover have "register ls n2 p2 t2 t2' = (Inl DuplicateUsername, ls)"
      using u same by (intro register_duplicate) auto
    ultimately show ?thesis by simp
  next
    case False
    let ?new = "newUser_of n1 p1 t1 t1'"
    let ?ls' = "snd (register ls n1 p1 t1 t1')"
    have "getUsers ?ls' = getUsers ls @ [?new]"
      using register_new [OF False] by (simp add: getUsers_def)
    then have "?new \<in> set (getUsers ?ls')" by simp
    moreover have "toLowerCase (username ?new) = toLowerCase (trim n2)"
      using same by (simp add: newUser_of_def)
    ultimately have "register ?ls' n2 p2 t2 t2' = (Inl DuplicateUsername, ?ls')"
      by (rule register_duplicate)
    then show ?thesis by simp
  qed
qed

lemma toLowerCase_BOB: "toLowerCase ''BOB'' = ''bob''" "toLowerCase ''bob'' = ''bob''"
  by code_simp+

text \<open>
  Claim C6. If the store holds a user whose name, stored trimmed as \<open>register\<close> writes
  it, equals the given name up to letter case, \<open>register\<close> fails with
  \<open>DuplicateUsername\<close> and leaves the store as it is. Calling \<open>register\<close> twice with names
  that are equal up to letter case fails the second time, from any store. Registering
  \<open>bob\<close> and then \<open>BOB\<close> fails on the second call.
\<close>

theorem register_duplicate_username:
  assumes "u \<in> set (getUsers ls)"
    and "trim (username u) = username u"
    and "toLowerCase (username u) = toLowerCase name"
  shows "register ls name pass idNow createdNow = (Inl DuplicateUsername, ls) \<and>
         (\<forall>st n1 n2 p1 p2 t1 t1' t2 t2'. toLowerCase n1 = toLowerCase n2 \<longrightarrow>
            fst (register (snd (register st n1 p1 t1 t1')) n2 p2 t2 t2') = Inl DuplicateUsername) \<and>
         register empty_store ''bob'' (Some ''secret'') 1000 1000 = (Inr bob, store_bob) \<and>
         register store_bob ''BOB'' (Some ''other'') 2000 2000 = (Inl DuplicateUsername, store_bob)"
proof -
  have "trim name = name"
    using assms(2,3) by (rule trim_of_lower_eq)
  with assms(1,3) have 1: "register ls name pass idNow createdNow = (Inl DuplicateUsername, ls)"
    by (intro register_duplicate) auto
  have 2: "register empty_store ''bob'' (Some ''secret'') 1000 1000 = (Inr bob, store_bob)"
    by (simp add: store_bob_def register_bob)
  have "trim ''BOB'' = ''BOB''"
    by (simp add: trim_fixed_iff isWhiteSpace_def)
  then have 3: "register store_bob ''BOB'' (Some ''other'') 2000 2000 = (Inl DuplicateUsername, store_bob)"
    using getUsers_store_bob
    by (intro register_duplicate [of bob]) (simp_all add: bob_def toLowerCase_BOB)
  from 1 2 3 show ?thesis
    by (simp add: register_twice)
qed

text \<open>
  The hypotheses of C6 hold for the name \<open>BOB\<close> in the store that holds \<open>bob\<close>, and
  registering \<open>Alice\<close> and then \<open>ALICE\<close> fails on the second call.
\<close>

theorem register_duplicate_username_witness:
  "bob \<in> set (getUsers store_bob) \<and> trim (username bob) = username bob \<and>
   toLowerCase (username bob) = toLowerCase ''BOB'' \<and>
   register store_bob ''BOB'' None 2000 2001 = (Inl DuplicateUsername, store_bob) \<and>
   toLowerCase ''Alice'' = toLowerCase ''ALICE'' \<and>
   fst (register (snd (register store_bob ''Alice'' None 2000 2001)) ''ALICE'' None 3000 3001)
     = Inl DuplicateUsername"
proof -
  have a: "bob \<in> set (getUsers store_bob)"
    by (simp add: getUsers_store_bob)
  have b: "trim (username bob) = username bob"
    by (simp add: bob_def trim_bob)
  have c: "toLowerCase (username bob) = toLowerCase ''BOB''"
    by (simp add: bob_def toLowerCase_BOB)
  have d: "toLowerCase ''Alice'' = toLowerCase ''ALICE''"
    by code_simp
  note t = register_duplicate_username [OF a b c, of None 2000 2001]
  from t have 1: "register store_bob ''BOB'' None 2000 2001 = (Inl DuplicateUsername, store_bob)"
    by (elim conjE)
  from t have "\<forall>st n1 n2 p1 p2 t1 t1' t2 t2'. toLowerCase n1 = toLowerCase n2 \<longrightarrow>
      fst (register (snd (register st n1 p1 t1 t1')) n2 p2 t2 t2') = Inl DuplicateUsername"
    by (elim conjE)
  with d have 2: "fst (register (snd (register store_bob ''Alice'' None 2000 2001)) ''ALICE'' None 3000 3001)
     = Inl DuplicateUsername"
    by blast
  from a b c d 1 2 show ?thesis by simp
qed

lemma toString_2000: "toString 2000 = ''2000''"
  by code_simp

lemma trim_amy: "trim ''amy'' = ''amy''"
  by (simp add: trim_fixed_iff isWhiteSpace_def)

lemma toLowerCase_amy: "toLowerCase ''amy'' = ''amy''"
  by code_simp

lemma store_bob_eq:
  "store_bob = \<lparr> users_item = Parsed [bob], current_user_item = Missing,
                 data_items = (\<lambda>key. Missing)(getUserKey ''1000'' :=
                    Parsed \<lparr> data_library = DEFAULT_LIBRARY, data_history = [] \<rparr>) \<rparr>"
  by (simp add: store_bob_def register_bob)

lemma register_amy:
  "register store_bob ''amy'' (Some []) 2000 2000 = (Inr amy, store_two)"
proof -
  have "\<not> (\<exists>u\<in>set (getUsers store_bob). toLowerCase (username u) = toLowerCase (trim ''amy''))"
    by (simp add: getUsers_store_bob bob_def trim_amy toLowerCase_amy toLowerCase_BOB)
  then have "fst (register store_bob ''amy'' (Some []) 2000 2000) = Inr (newUser_of ''amy'' (Some []) 2000 2000)"
    by (simp add: register_new)
  moreover have "newUser_of ''amy'' (Some []) 2000 2000 = amy"
    by (simp add: newUser_of_def amy_def trim_amy toString_2000 ADMIN_IDENTIFIERS_def)
  ultimately show ?thesis
    by (simp add: store_two_def prod_eq_iff)
qed

lemma getUsers_store_two: "getUsers store_two = [bob, amy]"
proof -
  have "\<not> (\<exists>u\<in>set (getUsers store_bob). toLowerCase (username u) = toLowerCase (trim ''amy''))"
    by (simp add: getUsers_store_bob bob_def trim_amy toLowerCase_amy toLowerCase_BOB)
  from register_new [OF this, of "Some []" 2000 2000]
  have "getUsers store_two = getUsers store_bob @ [newUser_of ''amy'' (Some []) 2000 2000]"
    by (simp add: store_two_def getUsers_def)
  moreover have "newUser_of ''amy'' (Some []) 2000 2000 = amy"
    by (simp add: newUser_of_def amy_def trim_amy toString_2000 ADMIN_IDENTIFIERS_def)
  ultimately show ?thesis by (simp add: getUsers_store_bob)
qed

lemma find_Some_set: "find P xs = Some x \<Longrightarrow> x \<in> set xs \<and> P x"
  by (induction xs) (auto split: if_splits)

lemma login_cases:
  "login ls name pass =
     (case find (\<lambda>u. toLowerCase (username u) = toLowerCase (trim name)) (getUsers ls) of
        None \<Rightarrow> Inl UserNotFound
      | Some user \<Rightarrow>
          if password user \<noteq> None \<and> password user \<noteq> Some [] \<and> password user \<noteq> pass
          then Inl InvalidCredentials else Inr user)"
  unfolding login_def UserNotFound_def InvalidCredentials_def ..

lemma errors_differ: "UserNotFound \<noteq> InvalidCredentials"
  by (simp add: UserNotFound_def InvalidCredentials_def)

text \<open>
  Claim C7, amended. \<open>login\<close> compares the stored names with the supplied name after
  trimming it. It fails with \<open>UserNotFound\<close> exactly when no stored name equals the
  trimmed supplied name up to letter case. It fails with \<open>InvalidCredentials\<close> exactly when
  the matched user, the first such user of the list, has a password that is present, not
  empty and different from the supplied one. When the matched user's password is absent
  or empty, or equal to the supplied one, \<open>login\<close> returns that user.
\<close>

theorem login_outcomes:
  "(login ls name pass = Inl UserNotFound \<longleftrightarrow>
      \<not> (\<exists>u\<in>set (getUsers ls). toLowerCase (username u) = toLowerCase (trim name))) \<and>
   (login ls name pass = Inl InvalidCredentials \<longleftrightarrow>
      (\<exists>u. find (\<lambda>u. toLowerCase (username u) = toLowerCase (trim name)) (getUsers ls) = Some u \<and>
           password u \<noteq> None \<and> password u \<noteq> Some [] \<and> password u \<noteq> pass)) \<and>
   (\<forall>u. find (\<lambda>u. toLowerCase (username u) = toLowerCase (trim name)) (getUsers ls) = Some u \<and>
        (password u = None \<or> password u = Some [] \<or> password u = pass) \<longrightarrow>
        login ls name pass = Inr u)"
proof (intro conjI)
  show "login ls name pass = Inl UserNotFound \<longleftrightarrow>
      \<not> (\<exists>u\<in>set (getUsers ls). toLowerCase (username u) = toLowerCase (trim name))"
    unfolding login_cases
    by (auto simp: find_None_iff errors_differ [symmetric] dest: find_Some_set split: option.splits)
next
  show "login ls name pass = Inl InvalidCredentials \<longleftrightarrow>
      (\<exists>u. find (\<lambda>u. toLowerCase (username u) = toLowerCase (trim name)) (getUsers ls) = Some u \<and>
           password u \<noteq> None \<and> password u \<noteq> Some [] \<and> password u \<noteq> pass)"
    unfolding login_cases
    by (auto simp: errors_differ split: option.splits)
next
  show "\<forall>u. find (\<lambda>u. toLowerCase (username u) = toLowerCase (trim name)) (getUsers ls) = Some u \<and>
        (password u = None \<or> password u = Some [] \<or> password u = pass) \<longrightarrow>
        login ls name pass = Inr u"
    unfolding login_cases by auto
qed

lemma trim_spaced_bob: "trim '' bob '' = ''bob''"
  by code_simp

lemma toLowerCase_spaced_bob: "toLowerCase '' bob '' = '' bob ''"
  by code_simp

text \<open>
  Claim C7 as stated fails for a supplied name with surrounding white space: the only
  stored name is \<open>bob\<close>, which differs from the supplied name even up to letter case, and
  \<open>login\<close> succeeds.
\<close>

theorem login_counterexample:
  "map username (getUsers store_bob) = [''bob''] \<and>
   toLowerCase ''bob'' \<noteq> toLowerCase '' bob '' \<and>
   login store_bob '' bob '' (Some ''secret'') = Inr bob"
  by (simp add: getUsers_store_bob login_cases trim_spaced_bob toLowerCase_spaced_bob
      toLowerCase_BOB bob_def)

text \<open>
  The three outcomes of C7 in the store that holds \<open>bob\<close>, with a password, and \<open>amy\<close>,
  with an empty one.
\<close>

theorem login_outcomes_witness:
  "login store_two ''carol'' (Some ''secret'') = Inl UserNotFound \<and>
   login store_two '' BOB'' (Some ''wrong'') = Inl InvalidCredentials \<and>
   login store_two '' BOB'' (Some ''secret'') = Inr bob \<and>
   login store_two ''amy'' (Some ''anything'') = Inr amy"
proof -
  have carol: "\<not> (\<exists>u\<in>set (getUsers store_two). toLowerCase (username u) = toLowerCase (trim ''carol''))"
    unfolding getUsers_store_two by code_simp
  have b: "find (\<lambda>u. toLowerCase (username u) = toLowerCase (trim '' BOB'')) (getUsers store_two) = Some bob"
    unfolding getUsers_store_two by code_simp
  have a: "find (\<lambda>u. toLowerCase (username u) = toLowerCase (trim ''amy'')) (getUsers store_two) = Some amy"
    unfolding getUsers_store_two by code_simp
  have pb: "password bob = Some ''secret''" and pa: "password amy = Some []"
    by (simp_all add: bob_def amy_def)
  have 1: "login store_two ''carol'' (Some ''secret'') = Inl UserNotFound"
    using login_outcomes [of store_two "''carol''" "Some ''secret''"] carol by blast
  have "\<exists>u. find (\<lambda>u. toLowerCase (username u) = toLowerCase (trim '' BOB'')) (getUsers store_two) = Some u \<and>
           password u \<noteq> None \<and> password u \<noteq> Some [] \<and> password u \<noteq> Some ''wrong''"
    using b pb by simp
  then have 2: "login store_two '' BOB'' (Some ''wrong'') = Inl InvalidCredentials"
    using login_outcomes [of store_two "'' BOB''" "Some ''wrong''"] by blast
  have 3: "login store_two '' BOB'' (Some ''secret'') = Inr bob"
    using login_outcomes [of store_two "'' BOB''" "Some ''secret''"] b pb by blast
  have 4: "login store_two ''amy'' (Some ''anything'') = Inr amy"
    using login_outcomes [of store_two "''amy''" "Some ''anything''"] a pa by blast
  from 1 2 3 4 show ?thesis by simp
qed

lemma DEFAULT_LIBRARY_words:
  "map (\<lambda>(cat, ws). (cat, map english ws)) DEFAULT_LIBRARY =
     [(''Food'', [''Apple'', ''Banana'', ''Bread'', ''Milk'', ''Coffee'']),
      (''Animals'', [''Cat'', ''Dog'', ''Elephant'', ''Tiger'']),
      (''School'', [''Book'', ''Teacher'', ''Student'', ''Pencil'']),
      (''Travel'', [''Airport'', ''Ticket'', ''Hotel'']),
      (''Uncategorized'', [])]"
  by (simp add: DEFAULT_LIBRARY_def word_def)

text \<open>
  Claim C8. If no stored name equals the trimmed given name up to letter case (the test
  that \<open>register\<close> makes), \<open>register\<close> returns a new user whose admin flag says whether the
  trimmed name is one of the two identifiers of the allow-list, writes the user list
  extended by that user, and writes under the new id the default library with an
  empty history. The default library holds the five starter categories with their
  seed words.
\<close>

theorem register_new_user:
  assumes "\<not> (\<exists>u\<in>set (getUsers ls). toLowerCase (username u) = toLowerCase (trim name))"
  shows "fst (register ls name pass idNow createdNow) =
           Inr \<lparr> id_user = toString idNow, username = trim name, password = pass,
                 createdAt = createdNow,
                 isAdmin = (trim name = ''910272860@qq.com'' \<or> trim name = ''13585556661'') \<rparr> \<and>
         getUsers (snd (register ls name pass idNow createdNow)) =
           getUsers ls @
             [\<lparr> id_user = toString idNow, username = trim name, password = pass,
                 createdAt = createdNow,
                 isAdmin = (trim name = ''910272860@qq.com'' \<or> trim name = ''13585556661'') \<rparr>] \<and>
         loadUserData (snd (register ls name pass idNow createdNow)) (toString idNow)
           = Some \<lparr> data_library = DEFAULT_LIBRARY, data_history = [] \<rparr> \<and>
         map (\<lambda>(cat, ws). (cat, map english ws)) DEFAULT_LIBRARY =
           [(''Food'', [''Apple'', ''Banana'', ''Bread'', ''Milk'', ''Coffee'']),
            (''Animals'', [''Cat'', ''Dog'', ''Elephant'', ''Tiger'']),
            (''School'', [''Book'', ''Teacher'', ''Student'', ''Pencil'']),
            (''Travel'', [''Airport'', ''Ticket'', ''Hotel'']),
            (''Uncategorized'', [])]"
proof -
  have new: "newUser_of name pass idNow createdNow =
      \<lparr> id_user = toString idNow, username = trim name, password = pass,
        createdAt = createdNow,
        isAdmin = (trim name = ''910272860@qq.com'' \<or> trim name = ''13585556661'') \<rparr>"
    by (simp add: newUser_of_def ADMIN_IDENTIFIERS_def)
  have 1: "fst (register ls name pass idNow createdNow) = Inr (newUser_of name pass idNow createdNow)"
    using register_new [OF assms] by simp
  have 2: "getUsers (snd (register ls name pass idNow createdNow)) =
      getUsers ls @ [newUser_of name pass idNow createdNow]"
    using register_new [OF assms] by (simp add: getUsers_def)
  have 3: "loadUserData (snd (register ls name pass idNow createdNow)) (toString idNow)
      = Some \<lparr> data_library = DEFAULT_LIBRARY, data_history = [] \<rparr>"
    using register_new [OF assms] by (simp add: loadUserData_def)
  from 1 2 3 show ?thesis
    unfolding new using DEFAULT_LIBRARY_words by simp
qed

lemma trim_admin: "trim '' 13585556661 '' = ''13585556661''"
  by code_simp

text \<open>
  C8 for an identifier of the allow-list in the empty store, and for a second user in
  the store that holds \<open>bob\<close>.
\<close>

theorem register_new_user_witness:
  "fst (register empty_store '' 13585556661 '' (Some ''pw'') 1000 1000) =
     Inr \<lparr> id_user = ''1000'', username = ''13585556661'', password = Some ''pw'',
           createdAt = 1000, isAdmin = True \<rparr> \<and>
   fst (register store_bob ''amy'' (Some []) 2000 2000) = Inr amy \<and>
   getUsers (snd (register store_bob ''amy'' (Some []) 2000 2000)) = [bob, amy] \<and>
   loadUserData (snd (register store_bob ''amy'' (Some []) 2000 2000)) ''2000''
     = Some \<lparr> data_library = DEFAULT_LIBRARY, data_history = [] \<rparr>"
proof -
  have e: "\<not> (\<exists>u\<in>set (getUsers empty_store).
              toLowerCase (username u) = toLowerCase (trim '' 13585556661 ''))"
    by (simp add: getUsers_def empty_store_def)
  have b: "\<not> (\<exists>u\<in>set (getUsers store_bob). toLowerCase (username u) = toLowerCase (trim ''amy''))"
    by (simp add: getUsers_store_bob bob_def trim_amy toLowerCase_amy toLowerCase_BOB)
  from register_new_user [OF e, of "Some ''pw''" 1000 1000]
  have 1: "fst (register empty_store '' 13585556661 '' (Some ''pw'') 1000 1000) =
     Inr \<lparr> id_user = ''1000'', username = ''13585556661'', password = Some ''pw'',
           createdAt = 1000, isAdmin = True \<rparr>"
    by (simp add: trim_admin toString_1000)
  from register_new_user [OF b, of "Some []" 2000 2000]
  have 2: "fst (register store_bob ''amy'' (Some []) 2000 2000) = Inr amy \<and>
     getUsers (snd (register store_bob ''amy'' (Some []) 2000 2000)) = [bob, amy] \<and>
     loadUserData (snd (register store_bob ''amy'' (Some []) 2000 2000)) ''2000''
       = Some \<lparr> data_library = DEFAULT_LIBRARY, data_history = [] \<rparr>"
    by (simp add: trim_amy toString_2000 amy_def getUsers_store_bob)
  from 1 2 show ?thesis by simp
qed

lemma getUserKey_inj [simp]: "getUserKey a = getUserKey b \<longleftrightarrow> a = b"
  by (simp add: getUserKey_def)

text \<open>
  Claim C9. After \<open>deleteUser\<close> the stored list holds exactly the users with another id,
  in their order and unchanged; no stored user has the target id; \<open>loadUserData\<close> for the
  target id returns nothing; \<open>loadUserData\<close> for every other id returns what it returned
  before.
\<close>

theorem deleteUser_removes:
  "getUsers (deleteUser ls target) = filter (\<lambda>u. id_user u \<noteq> target) (getUsers ls) \<and>
   (\<forall>u\<in>set (getUsers (deleteUser ls target)). id_user u \<noteq> target) \<and>
   loadUserData (deleteUser ls target) target = None \<and>
   (\<forall>u\<in>set (getUsers ls). id_user u \<noteq> target \<longrightarrow> u \<in> set (getUsers (deleteUser ls target))) \<and>
   (\<forall>other. other \<noteq> target \<longrightarrow>
      loadUserData (deleteUser ls target) other = loadUserData ls other)"
proof -
  have users: "getUsers (deleteUser ls target) = filter (\<lambda>u. id_user u \<noteq> target) (getUsers ls)"
    by (simp add: deleteUser_def Let_def getUsers_def)
  have gone: "loadUserData (deleteUser ls target) target = None"
    by (simp add: deleteUser_def Let_def loadUserData_def)
  have others: "\<forall>other. other \<noteq> target \<longrightarrow>
      loadUserData (deleteUser ls target) other = loadUserData ls other"
    by (simp add: deleteUser_def Let_def loadUserData_def)
  from users gone others show ?thesis by simp
qed

lemma store_two_eq:
  "store_two = \<lparr> users_item = Parsed [bob, amy], current_user_item = Missing,
                 data_items = (\<lambda>key. Missing)
                   (getUserKey ''1000'' := Parsed \<lparr> data_library = DEFAULT_LIBRARY, data_history = [] \<rparr>,
                    getUserKey ''2000'' := Parsed \<lparr> data_library = DEFAULT_LIBRARY, data_history = [] \<rparr>) \<rparr>"
proof -
  have b: "\<not> (\<exists>u\<in>set (getUsers store_bob). toLowerCase (username u) = toLowerCase (trim ''amy''))"
    by (simp add: getUsers_store_bob bob_def trim_amy toLowerCase_amy toLowerCase_BOB)
  have new: "newUser_of ''amy'' (Some []) 2000 2000 = amy"
    by (simp add: newUser_of_def amy_def trim_amy toString_2000 ADMIN_IDENTIFIERS_def)
  have "store_two = store_bob\<lparr> users_item := Parsed (getUsers store_bob @ [amy]),
          data_items := (data_items store_bob)(getUserKey ''2000'' :=
             Parsed \<lparr> data_library = DEFAULT_LIBRARY, data_history = [] \<rparr>) \<rparr>"
    unfolding store_two_def using register_new [OF b, of "Some []" 2000 2000]
    by (simp add: new toString_2000)
  then show ?thesis
    by (simp add: getUsers_store_bob) (simp add: store_bob_eq)
qed

lemma loadUserData_store_two:
  "loadUserData store_two ''2000'' = Some \<lparr> data_library = DEFAULT_LIBRARY, data_history = [] \<rparr>"
  "loadUserData store_two ''1000'' = Some \<lparr> data_library = DEFAULT_LIBRARY, data_history = [] \<rparr>"
  by (simp_all add: store_two_eq loadUserData_def)

text \<open>
  Deleting \<open>bob\<close> from the store of two users leaves \<open>amy\<close> and the data stored for
  \<open>amy\<close>.
\<close>

theorem deleteUser_removes_witness:
  "getUsers (deleteUser store_two ''1000'') = [amy] \<and>
   loadUserData (deleteUser store_two ''1000'') ''1000'' = None \<and>
   loadUserData (deleteUser store_two ''1000'') ''2000'' = loadUserData store_two ''2000'' \<and>
   loadUserData store_two ''2000'' = Some \<lparr> data_library = DEFAULT_LIBRARY, data_history = [] \<rparr> \<and>
   loadUserData store_two ''1000'' = Some \<lparr> data_library = DEFAULT_LIBRARY, data_history = [] \<rparr>"
proof -
  note d = deleteUser_removes [of store_two "''1000''"]
  from d have u: "getUsers (deleteUser store_two ''1000'') =
      filter (\<lambda>u. id_user u \<noteq> ''1000'') (getUsers store_two)"
    by (elim conjE)
  from d have g: "loadUserData (deleteUser store_two ''1000'') ''1000'' = None"
    by (elim conjE)
  from d have "\<forall>other. other \<noteq> ''1000'' \<longrightarrow>
      loadUserData (deleteUser store_two ''1000'') other = loadUserData store_two other"
    by (elim conjE)
  then have o: "loadUserData (deleteUser store_two ''1000'') ''2000'' = loadUserData store_two ''2000''"
    by simp
  have "filter (\<lambda>u. id_user u \<noteq> ''1000'') [bob, amy] = [amy]"
    by (simp add: bob_def amy_def)
  with u have u': "getUsers (deleteUser store_two ''1000'') = [amy]"
    by (simp add: getUsers_store_two)
  from u' g o loadUserData_store_two show ?thesis
    by simp
qed

lemma resetUserPassword_unknown:
  assumes "target \<notin> id_user ` set (getUsers ls)"
  shows "findIndex (\<lambda>u. id_user u = target) (getUsers ls) = None"
  using assms by (auto simp: findIndex_None)

text \<open>
  Claim C10. For a target id that no stored user has, \<open>resetUserPassword\<close> returns the
  store as it was; the function has no failing branch.
\<close>

theorem resetUserPassword_unknown_id:
  assumes "target \<notin> id_user ` set (getUsers ls)"
  shows "resetUserPassword ls target newPass = ls"
  using resetUserPassword_unknown [OF assms]
  by (simp add: resetUserPassword_def)

text \<open>An unknown id in the store that holds \<open>bob\<close>: the password of \<open>bob\<close> stays.\<close>

theorem resetUserPassword_unknown_id_witness:
  "''9999'' \<notin> id_user ` set (getUsers store_bob) \<and>
   resetUserPassword store_bob ''9999'' ''hacked'' = store_bob \<and>
   map password (getUsers (resetUserPassword store_bob ''9999'' ''hacked'')) = [Some ''secret'']"
proof -
  have a: "''9999'' \<notin> id_user ` set (getUsers store_bob)"
    by (simp add: getUsers_store_bob bob_def)
  from resetUserPassword_unknown_id [OF a, of "''hacked''"] a
  show ?thesis
    by (simp add: getUsers_store_bob bob_def)
qed

text \<open>Every operation of the service that writes the user list keeps the stored names trimmed.\<close>

lemma last_dropWhile:
  "dropWhile P xs \<noteq> [] \<Longrightarrow> last (dropWhile P xs) = last xs"
  by (induction xs) (auto split: if_splits)

lemma trim_idem: "trim (trim s) = trim s"
proof (cases "trim s = []")
  case True
  have "trim [] = []" by (simp add: trim_def)
  with True show ?thesis by simp
next
  case False
  let ?t = "dropWhile isWhiteSpace s"
  let ?r = "dropWhile isWhiteSpace (rev ?t)"
  from False have r: "?r \<noteq> []" by (simp add: trim_def)
  have t: "?t \<noteq> []"
  proof
    assume a: "?t = []"
    have "?r = dropWhile isWhiteSpace (rev [])" by (simp only: a)
    with r show False by (simp del: dropWhile_eq_Nil_conv)
  qed
  have "last (trim s) = hd ?r"
    using r by (simp add: trim_def last_rev)
  moreover have "\<not> isWhiteSpace (hd ?r)"
    using r by (rule hd_dropWhile)
  moreover have "hd (trim s) = last ?r"
    using r by (simp add: trim_def hd_rev)
  moreover have "last ?r = hd ?t"
    using r t by (simp add: last_dropWhile last_rev)
  moreover have "\<not> isWhiteSpace (hd ?t)"
    using t by (rule hd_dropWhile)
  ultimately show ?thesis
    by (simp add: trim_fixed_iff)
qed

lemma names_trimmed_empty: "names_trimmed empty_store"
  by (simp add: names_trimmed_def empty_store_def getUsers_def)

lemma names_trimmed_register:
  assumes "names_trimmed ls"
  shows "names_trimmed (snd (register ls name pass idNow createdNow))"
proof (cases "\<exists>u\<in>set (getUsers ls). toLowerCase (username u) = toLowerCase (trim name)")
  case True
  then obtain u where "u \<in> set (getUsers ls)" "toLowerCase (username u) = toLowerCase (trim name)"
    by blast
  then have "register ls name pass idNow createdNow = (Inl DuplicateUsername, ls)"
    by (rule register_duplicate)
  with assms show ?thesis by simp
next
  case False
  from register_new [OF False, of pass idNow createdNow]
  have "getUsers (snd (register ls name pass idNow createdNow)) =
      getUsers ls @ [newUser_of name pass idNow createdNow]"
    by (simp add: getUsers_def)
  with assms show ?thesis
    by (simp add: names_trimmed_def newUser_of_def trim_idem)
qed

lemma names_trimmed_deleteUser:
  "names_trimmed ls \<Longrightarrow> names_trimmed (deleteUser ls target)"
  by (simp add: names_trimmed_def deleteUser_def Let_def getUsers_def list_all_iff)

lemma names_trimmed_resetUserPassword:
  assumes "names_trimmed ls"
  shows "names_trimmed (resetUserPassword ls target newPass)"
proof (cases "findIndex (\<lambda>u. id_user u = target) (getUsers ls)")
  case None
  with assms show ?thesis by (simp add: resetUserPassword_def)
next
  case (Some idx)
  then have idx: "idx < length (getUsers ls)" by (simp add: findIndex_Some)
  have "getUsers (resetUserPassword ls target newPass) =
      (getUsers ls)[idx := (getUsers ls ! idx)\<lparr> password := Some newPass \<rparr>]"
    using Some by (simp add: resetUserPassword_def getUsers_def Let_def)
  moreover have "trim (username (getUsers ls ! idx)) = username (getUsers ls ! idx)"
    using assms idx by (simp add: names_trimmed_def list_all_length)
  ultimately show ?thesis
    using assms by (auto simp: names_trimmed_def list_all_iff dest!: set_update_subset_insert [THEN subsetD])
qed

end
